theory Spec2Isabelle
  imports Main
begin

section \<open>The record store\<close>

text \<open>
  The tables the points, streak and achievement bookkeeping works on, as the migration
  declares them. A \<open>DATE\<close> is the number of its day, so that the day before
  \<open>d\<close> is \<open>d - 1\<close>. An \<open>INTEGER\<close> column is an \<open>int\<close>; a nullable column
  is an \<open>option\<close>, \<open>None\<close> being SQL's \<open>NULL\<close>. An \<open>INTEGER\<close> has 32 bits:
  an addition whose result leaves the range, and the write of a value outside it, raise
  the store's error 22003 instead of wrapping around.

  \<^item> \<open>profiles\<close>: one row per user, keyed by \<open>user_id\<close>, with the nullable columns
    \<open>points\<close>, \<open>current_streak\<close> and \<open>last_login_date\<close>;
  \<^item> \<open>daily_logins\<close>: rows \<open>(user_id, login_date)\<close> under \<open>UNIQUE(user_id, login_date)\<close>,
    kept as the list of rows in insertion order;
  \<^item> \<open>achievement_progress\<close>: one row per \<open>(user_id, achievement_type)\<close> under
    \<open>UNIQUE(user_id, achievement_type)\<close>, with \<open>current_count\<close>, \<open>bonus_claimed\<close>
    and \<open>last_updated\<close>, all \<open>NOT NULL\<close>.
\<close>

type_synonym user_id = string
type_synonym date = int
type_synonym timestamp = string

record profile =
  points :: "int option"
  current_streak :: "int option"
  last_login_date :: "date option"

record achievement =
  current_count :: int
  bonus_claimed :: bool
  last_updated :: timestamp

text \<open>
  Modelled from the spec: the declaration of the \<open>profiles\<close> table is not among the
  sources (only the \<open>ALTER TABLE\<close> that adds the two streak columns is). That there is
  one profile per user, with \<open>user_id\<close> as its key, is the specification's data model;
  the three columns and their being nullable are those of the generated client types.
\<close>

record db =
  profiles :: "user_id \<rightharpoonup> profile"
  daily_logins :: "(user_id \<times> date) list"
  achievement_progress :: "(user_id \<times> string) \<rightharpoonup> achievement"

text \<open>
  The errors the store raises in this development: SQLSTATE 23505 (a unique constraint
  is violated) and SQLSTATE 22003 (an integer is out of range).
\<close>

datatype pg_error = UniqueViolation | NumericValueOutOfRange

text \<open>The range of an \<open>INTEGER\<close>, and the addition of two of them.\<close>

definition int4_ok :: "int \<Rightarrow> bool" where
  "int4_ok v = (- 2147483648 \<le> v \<and> v \<le> 2147483647)"

definition int4_add :: "int \<Rightarrow> int \<Rightarrow> pg_error + int" where
  "int4_add a b = (if int4_ok (a + b) then Inr (a + b) else Inl NumericValueOutOfRange)"

text \<open>SQL's \<open>COALESCE(v, d)\<close>.\<close>

definition coalesce :: "'a option \<Rightarrow> 'a \<Rightarrow> 'a" where
  "coalesce v d = (case v of None \<Rightarrow> d | Some x \<Rightarrow> x)"

text \<open>
  \<open>INSERT INTO daily_logins (user_id, login_date) VALUES (u, d)\<close>: the unique
  constraint refuses a second row for the same user and date.
\<close>

definition insert_daily_login :: "user_id \<Rightarrow> date \<Rightarrow> db \<Rightarrow> pg_error + db" where
  "insert_daily_login u d s =
     (if (u, d) \<in> set (daily_logins s) then Inl UniqueViolation
      else Inr (s\<lparr>daily_logins := daily_logins s @ [(u, d)]\<rparr>))"

text \<open>
  \<open>UPDATE profiles SET current_streak = n, last_login_date = d,
  points = COALESCE(points, 0) + k WHERE user_id = u\<close>: the row of \<open>u\<close> when there is
  one, no row otherwise (which is no error). The sum is computed for the row that
  matches, and raises when it leaves the range.
\<close>

definition update_profile_login ::
  "user_id \<Rightarrow> int \<Rightarrow> date \<Rightarrow> int \<Rightarrow> db \<Rightarrow> pg_error + db" where
  "update_profile_login u n d k s =
     (case profiles s u of
        None \<Rightarrow> Inr s
      | Some p \<Rightarrow>
          (case int4_add (coalesce (points p) 0) k of
             Inl e \<Rightarrow> Inl e
           | Inr v \<Rightarrow>
               Inr (s\<lparr>profiles := (profiles s)(u \<mapsto>
                      p\<lparr>current_streak := Some n, last_login_date := Some d,
                        points := Some v\<rparr>)\<rparr>)))"

section \<open>The stored procedure \<open>handle_daily_login\<close>\<close>

text \<open>
  The row the procedure returns.
\<close>

record login_result =
  points_earned :: int
  streak_count :: int
  is_new_login :: bool

text \<open>
  \<open>handle_daily_login(user_id_param)\<close>, statement by statement. \<open>today\<close> is
  \<open>CURRENT_DATE\<close>. The procedure runs as one transaction under the store's default
  isolation, where each statement sees what other sessions have committed before it
  starts: \<open>concurrent\<close> is what the other sessions commit between the procedure's reads
  and its \<open>INSERT\<close> (the identity when the procedure runs alone). The result is the row
  returned or the error raised, with the state of the store afterwards; the procedure
  has no exception handler, so an error ends it and the transaction changes nothing:
  after an error of the streak's addition the store is as the procedure found it, after
  an error of the \<open>INSERT\<close> or of the \<open>UPDATE\<close> it is as the other sessions left it,
  without the login row.

  A \<open>SELECT ... INTO\<close> that finds no row leaves every field \<open>NULL\<close>, and a comparison
  with \<open>NULL\<close> is not true, so the \<open>ELSE\<close> branch runs.
\<close>

definition handle_daily_login ::
  "date \<Rightarrow> (db \<Rightarrow> db) \<Rightarrow> user_id \<Rightarrow> db \<Rightarrow> (pg_error + login_result) \<times> db" where
  "handle_daily_login today concurrent user_id_param s =
     (let today_date = today;
          yesterday_date = today - 1;
          existing_login_count =
            int (length (filter (\<lambda>r. r = (user_id_param, today_date)) (daily_logins s)))
      in if existing_login_count > 0 then
           (let new_streak = Option.bind (profiles s user_id_param) current_streak
            in (Inr \<lparr>points_earned = 0, streak_count = coalesce new_streak 0,
                     is_new_login = False\<rparr>, s))
         else
           (let current_profile = profiles s user_id_param
            in case (if Option.bind current_profile last_login_date = Some yesterday_date
                     then int4_add (coalesce (Option.bind current_profile current_streak) 0) 1
                     else Inr 1) of
                 Inl e \<Rightarrow> (Inl e, s)
               | Inr new_streak \<Rightarrow>
                   (let points_to_add = (if new_streak = 30 then 10 + 40 else 10);
                        s1 = concurrent s
                    in case insert_daily_login user_id_param today_date s1 of
                         Inl e \<Rightarrow> (Inl e, s1)
                       | Inr s2 \<Rightarrow>
                           (case update_profile_login user_id_param new_streak today_date
                                   points_to_add s2 of
                              Inl e \<Rightarrow> (Inl e, s1)
                            | Inr s3 \<Rightarrow>
                                (Inr \<lparr>points_earned = points_to_add,
                                      streak_count = new_streak, is_new_login = True\<rparr>,
                                 s3)))))"

text \<open>
  Two ways the other sessions behave: \<open>alone\<close>, where none commits anything while the
  procedure runs, and \<open>duplicate_call\<close>, where a second call of the procedure for the
  same user commits in between.
\<close>

definition alone :: "db \<Rightarrow> db" where
  "alone s = s"

definition duplicate_call :: "date \<Rightarrow> user_id \<Rightarrow> db \<Rightarrow> db" where
  "duplicate_call today u s = snd (handle_daily_login today alone u s)"

section \<open>The client hook \<open>useAchievements\<close>\<close>

text \<open>
  The hook's argument \<open>userId?: string\<close> is a \<open>string option\<close>, \<open>None\<close> being
  \<open>undefined\<close>. The guard \<open>if (!userId) return\<close> holds for \<open>undefined\<close> and for the
  empty string.
\<close>

definition js_not :: "string option \<Rightarrow> bool" where
  "js_not userId = (case userId of None \<Rightarrow> True | Some u \<Rightarrow> u = [])"

text \<open>JavaScript's \<open>v || 0\<close> on a number that may be \<open>null\<close> or \<open>undefined\<close>.\<close>

definition js_or0 :: "int option \<Rightarrow> int" where
  "js_or0 v = (case v of None \<Rightarrow> 0 | Some n \<Rightarrow> if n = 0 then 0 else n)"

text \<open>The parameter \<open>activityType: 'quiz' | 'game'\<close> and the text it is stored as.\<close>

datatype activity = Quiz | Game

fun achievement_type :: "activity \<Rightarrow> string" where
  "achievement_type Quiz = ''quiz''"
| "achievement_type Game = ''game''"

text \<open>
  The calls the hook makes to the store. Each is answered: the store is reachable, and
  the session is the one of \<open>userId\<close>, so that the row-level policies let its own rows
  through. A call returns its error beside its data, as the client library does; the
  store refuses a count or a number of points outside the range of an \<open>INTEGER\<close>.

  \<^item> \<open>.select('*').eq('user_id', u).eq('achievement_type', t).single()\<close>: the row, or
    \<open>null\<close> data when there is none (the hook drops the error of that call);
  \<^item> \<open>.upsert({user_id, achievement_type, current_count, last_updated},
    {onConflict: 'user_id,achievement_type'})\<close>: a new row takes the column default
    \<open>bonus_claimed = false\<close>, an existing row keeps the columns the call does not name;
  \<^item> \<open>.update({points: v}).eq('user_id', u)\<close> and
    \<open>.update({bonus_claimed: true}).eq(...)\<close>: the matching row when there is one.
\<close>

definition select_progress_single :: "user_id \<Rightarrow> string \<Rightarrow> db \<Rightarrow> achievement option" where
  "select_progress_single u t s = achievement_progress s (u, t)"

definition upsert_progress ::
  "user_id \<Rightarrow> string \<Rightarrow> int \<Rightarrow> timestamp \<Rightarrow> db \<Rightarrow> pg_error + db" where
  "upsert_progress u t n now s =
     (if \<not> int4_ok n then Inl NumericValueOutOfRange
      else
        Inr (s\<lparr>achievement_progress := (achievement_progress s)((u, t) \<mapsto>
               (case achievement_progress s (u, t) of
                  None \<Rightarrow> \<lparr>current_count = n, bonus_claimed = False, last_updated = now\<rparr>
                | Some r \<Rightarrow> r\<lparr>current_count := n, last_updated := now\<rparr>))\<rparr>))"

definition select_points_single :: "user_id \<Rightarrow> db \<Rightarrow> profile option" where
  "select_points_single u s = profiles s u"

definition update_points :: "user_id \<Rightarrow> int \<Rightarrow> db \<Rightarrow> pg_error + db" where
  "update_points u v s =
     (if \<not> int4_ok v then Inl NumericValueOutOfRange
      else
        Inr (case profiles s u of
               None \<Rightarrow> s
             | Some p \<Rightarrow> s\<lparr>profiles := (profiles s)(u \<mapsto> p\<lparr>points := Some v\<rparr>)\<rparr>))"

definition update_bonus_claimed :: "user_id \<Rightarrow> string \<Rightarrow> db \<Rightarrow> pg_error + db" where
  "update_bonus_claimed u t s =
     Inr (case achievement_progress s (u, t) of
            None \<Rightarrow> s
          | Some r \<Rightarrow>
              s\<lparr>achievement_progress :=
                  (achievement_progress s)((u, t) \<mapsto> r\<lparr>bonus_claimed := True\<rparr>)\<rparr>)"

text \<open>
  What the hook can change: the store, its two pieces of React state, the toasts shown,
  the errors written by \<open>console.error\<close>, and the log of the calls made to the store.
\<close>

datatype toast = DailyReward int bool | AchievementUnlocked activity int

datatype store_call =
  Rpc_handle_daily_login | Select_progress | Upsert_progress | Select_points
  | Update_points | Update_bonus_claimed | Select_all_progress

record world =
  store :: db
  loginStreak :: int
  achievementProgress :: "string \<rightharpoonup> achievement"
  toasts :: "toast list"
  console :: "pg_error list"
  calls :: "store_call list"

text \<open>
  \<open>handleDailyLogin\<close>: the remote call of the procedure; an error is thrown, caught and
  logged, and the function then returns \<open>undefined\<close>. \<open>DailyReward k b\<close> is the toast
  for \<open>k\<close> points, \<open>b\<close> telling whether it mentions the 30-day bonus.
\<close>

definition handleDailyLogin ::
  "string option \<Rightarrow> date \<Rightarrow> (db \<Rightarrow> db) \<Rightarrow> world \<Rightarrow> login_result option \<times> world" where
  "handleDailyLogin userId today concurrent w =
     (case userId of
        None \<Rightarrow> (None, w)
      | Some u \<Rightarrow>
          if js_not userId then (None, w)
          else
            (case handle_daily_login today concurrent u (store w) of
               (Inl error, s') \<Rightarrow>
                 (None, w\<lparr>store := s', console := console w @ [error],
                          calls := calls w @ [Rpc_handle_daily_login]\<rparr>)
             | (Inr result, s') \<Rightarrow>
                 (Some result,
                  w\<lparr>store := s', loginStreak := streak_count result,
                    toasts := toasts w @
                      (if is_new_login result \<and> points_earned result > 0
                       then [DailyReward (points_earned result) (points_earned result > 10)]
                       else []),
                    calls := calls w @ [Rpc_handle_daily_login]\<rparr>)))"

text \<open>\<open>fetchAchievementProgress\<close>: the rows of the user, by achievement type.\<close>

definition fetchAchievementProgress :: "string option \<Rightarrow> world \<Rightarrow> world" where
  "fetchAchievementProgress userId w =
     (case userId of
        None \<Rightarrow> w
      | Some u \<Rightarrow>
          if js_not userId then w
          else w\<lparr>achievementProgress := (\<lambda>t. achievement_progress (store w) (u, t)),
                 calls := calls w @ [Select_all_progress]\<rparr>)"

text \<open>
  \<open>trackActivity\<close>, call by call; \<open>now\<close> is \<open>new Date().toISOString()\<close>. Each
  \<open>throw\<close> lands in the function's own \<open>catch\<close>, which logs the error and ends the
  call with what has been written so far.
\<close>

definition trackActivity :: "string option \<Rightarrow> activity \<Rightarrow> timestamp \<Rightarrow> world \<Rightarrow> world" where
  "trackActivity userId activityType now w =
     (case userId of
        None \<Rightarrow> w
      | Some u \<Rightarrow>
          if js_not userId then w
          else
            (let t = achievement_type activityType;
                 currentProgress = select_progress_single u t (store w);
                 w1 = w\<lparr>calls := calls w @ [Select_progress]\<rparr>;
                 newCount = js_or0 (map_option current_count currentProgress) + 1
             in case upsert_progress u t newCount now (store w1) of
                  Inl upsertError \<Rightarrow>
                    w1\<lparr>calls := calls w1 @ [Upsert_progress],
                       console := console w1 @ [upsertError]\<rparr>
                | Inr s2 \<Rightarrow>
                    (let w2 = w1\<lparr>store := s2, calls := calls w1 @ [Upsert_progress]\<rparr>;
                         claimed = coalesce (map_option bonus_claimed currentProgress) False;
                         bonusPoints =
                           (if activityType = Quiz \<and> newCount = 30 \<and> \<not> claimed then 50
                            else if activityType = Game \<and> newCount = 50 \<and> \<not> claimed then 50
                            else 0)
                     in if bonusPoints > 0 then
                          (let profile = select_points_single u (store w2);
                               w3 = w2\<lparr>calls := calls w2 @ [Select_points]\<rparr>
                           in case update_points u
                                     (js_or0 (Option.bind profile points) + bonusPoints)
                                     (store w3) of
                                Inl pointsError \<Rightarrow>
                                  w3\<lparr>calls := calls w3 @ [Update_points],
                                     console := console w3 @ [pointsError]\<rparr>
                              | Inr s4 \<Rightarrow>
                                  (let w4 = w3\<lparr>store := s4,
                                                calls := calls w3 @ [Update_points]\<rparr>
                                   in case update_bonus_claimed u t (store w4) of
                                        Inl claimError \<Rightarrow>
                                          w4\<lparr>calls := calls w4 @ [Update_bonus_claimed],
                                             console := console w4 @ [claimError]\<rparr>
                                      | Inr s5 \<Rightarrow>
                                          fetchAchievementProgress userId
                                            (w4\<lparr>store := s5,
                                                calls := calls w4 @ [Update_bonus_claimed],
                                                toasts := toasts w4 @
                                                  [AchievementUnlocked activityType
                                                     bonusPoints]\<rparr>)))
                        else fetchAchievementProgress userId w2)))"

section \<open>Sequences of operations\<close>

text \<open>
  A session calls the two operations one after the other; \<open>run\<close> performs a list of
  them in order, each login running its procedure alone.
\<close>

datatype operation =
  DailyLogin "string option" date
  | TrackActivity "string option" activity timestamp

fun step :: "operation \<Rightarrow> world \<Rightarrow> world" where
  "step (DailyLogin userId today) w = snd (handleDailyLogin userId today alone w)"
| "step (TrackActivity userId activityType now) w = trackActivity userId activityType now w"

fun run :: "operation list \<Rightarrow> world \<Rightarrow> world" where
  "run [] w = w"
| "run (x # xs) w = run xs (step x w)"

text \<open>
  The specification's rule for the milestone bonus, in its own words: the activity is a
  quiz and the new count is 30, or it is a game and the new count is 50, and the bonus
  has not been claimed.
\<close>

definition spec_bonus_eligible :: "activity \<Rightarrow> int \<Rightarrow> bool \<Rightarrow> bool" where
  "spec_bonus_eligible activityType newCount claimed =
     ((activityType = Quiz \<and> newCount = 30 \<and> \<not> claimed)
      \<or> (activityType = Game \<and> newCount = 50 \<and> \<not> claimed))"

text \<open>
  The points, the streak, the last login date and the count a reader sees, an unset
  column or a missing row being 0 (no date, for the last login).
\<close>

definition points_of :: "db \<Rightarrow> user_id \<Rightarrow> int" where
  "points_of s u = coalesce (Option.bind (profiles s u) points) 0"

definition streak_of :: "db \<Rightarrow> user_id \<Rightarrow> int" where
  "streak_of s u = coalesce (Option.bind (profiles s u) current_streak) 0"

definition last_login_of :: "db \<Rightarrow> user_id \<Rightarrow> date option" where
  "last_login_of s u = Option.bind (profiles s u) last_login_date"

definition count_of :: "db \<Rightarrow> user_id \<Rightarrow> activity \<Rightarrow> int" where
  "count_of s u a =
     coalesce (map_option current_count (achievement_progress s (u, achievement_type a))) 0"

definition claimed_of :: "db \<Rightarrow> user_id \<Rightarrow> activity \<Rightarrow> bool" where
  "claimed_of s u a =
     coalesce (map_option bonus_claimed (achievement_progress s (u, achievement_type a))) False"

section \<open>Sample states\<close>

text \<open>
  A store with one user, \<open>u1\<close>, who logged in last on day 19 with a streak of 5 days and
  100 points; the same user on the 29th day of a streak; the same user with the largest
  streak an \<open>INTEGER\<close> holds; and a client over the first store that has done nothing
  yet.
\<close>

definition demo_profile :: profile where
  "demo_profile = \<lparr>points = Some 100, current_streak = Some 5, last_login_date = Some 19\<rparr>"

definition demo_store :: db where
  "demo_store =
     \<lparr>profiles = [''u1'' \<mapsto> demo_profile], daily_logins = [(''u1'', 19)],
      achievement_progress = Map.empty\<rparr>"

definition streak29_store :: db where
  "streak29_store =
     \<lparr>profiles = [''u1'' \<mapsto>
        \<lparr>points = Some 290, current_streak = Some 29, last_login_date = Some 19\<rparr>],
      daily_logins = [(''u1'', 19)], achievement_progress = Map.empty\<rparr>"

definition max_streak_store :: db where
  "max_streak_store =
     \<lparr>profiles = [''u1'' \<mapsto>
        \<lparr>points = Some 100, current_streak = Some 2147483647, last_login_date = Some 19\<rparr>],
      daily_logins = [(''u1'', 19)], achievement_progress = Map.empty\<rparr>"

definition demo_world :: world where
  "demo_world =
     \<lparr>store = demo_store, loginStreak = 0, achievementProgress = Map.empty, toasts = [],
      console = [], calls = []\<rparr>"

text \<open>
  The client of \<open>u1\<close> after \<open>n\<close> quizzes, the bonus claimed or not as \<open>c\<close> says.
\<close>

definition quiz_world :: "int \<Rightarrow> bool \<Rightarrow> world" where
  "quiz_world n c =
     demo_world\<lparr>store := demo_store\<lparr>achievement_progress :=
       [(''u1'', ''quiz'') \<mapsto>
          \<lparr>current_count = n, bonus_claimed = c, last_updated = ''t0''\<rparr>]\<rparr>\<rparr>"



section \<open>The daily login\<close>

text \<open>The two branches of the procedure, by whether today's login row is there.\<close>

lemma handle_daily_login_old:
  assumes "(u, today) \<in> set (daily_logins s)"
  shows "handle_daily_login today concurrent u s =
           (Inr \<lparr>points_earned = 0,
                 streak_count = (case profiles s u of None \<Rightarrow> 0
                                 | Some p \<Rightarrow> coalesce (current_streak p) 0),
                 is_new_login = False\<rparr>, s)"
  using assms
  by (simp add: handle_daily_login_def filter_empty_conv coalesce_def
      split: option.splits)

lemma handle_daily_login_new:
  assumes "(u, today) \<notin> set (daily_logins s)"
  shows "handle_daily_login today concurrent u s =
    (case (if last_login_of s u = Some (today - 1) then int4_add (streak_of s u) 1
           else Inr 1) of
       Inl e \<Rightarrow> (Inl e, s)
     | Inr n \<Rightarrow>
         if (u, today) \<in> set (daily_logins (concurrent s))
         then (Inl UniqueViolation, concurrent s)
         else
           (case update_profile_login u n today (if n = 30 then 50 else 10)
                   ((concurrent s)\<lparr>daily_logins :=
                      daily_logins (concurrent s) @ [(u, today)]\<rparr>) of
              Inl e \<Rightarrow> (Inl e, concurrent s)
            | Inr s3 \<Rightarrow>
                (Inr \<lparr>points_earned = (if n = 30 then 50 else 10), streak_count = n,
                      is_new_login = True\<rparr>, s3)))"
  using assms
  by (simp add: handle_daily_login_def filter_empty_conv insert_daily_login_def Let_def
      last_login_of_def streak_of_def split: sum.splits)

text \<open>The streak the procedure computes, when the addition stays in range.\<close>

lemma new_streak_in_range:
  assumes "last_login_of s u = Some (today - 1) \<longrightarrow> int4_ok (streak_of s u + 1)"
  shows "(if last_login_of s u = Some (today - 1) then int4_add (streak_of s u) 1 else Inr 1)
         = Inr (if last_login_of s u = Some (today - 1) then streak_of s u + 1 else 1)"
  using assms by (simp add: int4_add_def)


text \<open>What the \<open>UPDATE\<close> of the procedure writes, and when.\<close>

lemma update_profile_login_Inr:
  assumes "update_profile_login u n d k s = Inr s'"
  shows "daily_logins s' = daily_logins s"
    and "achievement_progress s' = achievement_progress s"
    and "profiles s' =
           (case profiles s u of
              None \<Rightarrow> profiles s
            | Some p \<Rightarrow>
                (profiles s)(u \<mapsto> p\<lparr>current_streak := Some n, last_login_date := Some d,
                                    points := Some (points_of s u + k)\<rparr>))"
  using assms
  by (auto simp add: update_profile_login_def int4_add_def points_of_def
      split: option.splits if_splits)


lemma update_profile_login_in_range:
  assumes "profiles s u \<noteq> None \<longrightarrow> int4_ok (points_of s u + k)"
  shows "\<exists>s'. update_profile_login u n d k s = Inr s'"
  using assms
  by (auto simp add: update_profile_login_def int4_add_def points_of_def
      split: option.splits)

lemma demo_store_no_login_20: "(''u1'', 20) \<notin> set (daily_logins demo_store)"
  by (simp add: demo_store_def)

lemma demo_store_fields:
  "profiles demo_store ''u1'' = Some demo_profile"
  "streak_of demo_store ''u1'' = 5"
  "points_of demo_store ''u1'' = 100"
  "last_login_of demo_store ''u1'' = Some 19"
  by (simp_all add: demo_store_def demo_profile_def streak_of_def points_of_def
      last_login_of_def coalesce_def)

text \<open>
  Claim C1. When a login row for the user and today's date exists, the procedure returns
  0 points earned, the streak stored in the user's profile (0 when the column is unset or
  the profile is missing) and \<open>is_new_login = false\<close>, and the store after the call is
  the store before it: points, streak, last login date and the login rows are untouched,
  whatever the other sessions do.
\<close>

theorem handle_daily_login_already_logged_in:
  assumes "(u, today) \<in> set (daily_logins s)"
  shows "handle_daily_login today concurrent u s =
           (Inr \<lparr>points_earned = 0,
                 streak_count = (case profiles s u of None \<Rightarrow> 0
                                 | Some p \<Rightarrow> coalesce (current_streak p) 0),
                 is_new_login = False\<rparr>, s)"
  using assms by (rule handle_daily_login_old)

theorem handle_daily_login_already_logged_in_witness:
  "(''u1'', 19) \<in> set (daily_logins demo_store) \<and>
   handle_daily_login 19 alone ''u1'' demo_store =
     (Inr \<lparr>points_earned = 0, streak_count = 5, is_new_login = False\<rparr>, demo_store)"
  using handle_daily_login_already_logged_in [of "''u1''" 19 demo_store alone]
  by (simp add: demo_store_def demo_profile_def coalesce_def)

text \<open>
  Claim C2, as the procedure behaves. When there is no login row for the user and
  today, and the streak plus 1 and the points plus the reward of 10 or 50 are in the
  range of an \<open>INTEGER\<close>, the call returns a new login whose streak is the profile's
  streak plus 1 (an unset streak counting as 0) if the profile's last login date is the
  day before today, and 1 in every other case (no profile or no last login date, an
  older date, today's or a later one); that streak and today's date are written to the
  profile, when there is one.
\<close>

theorem handle_daily_login_streak_in_range:
  assumes "(u, today) \<notin> set (daily_logins s)"
    and "int4_ok (streak_of s u + 1)"
    and "int4_ok (points_of s u + 10)" and "int4_ok (points_of s u + 50)"
  shows "\<exists>r s'. handle_daily_login today alone u s = (Inr r, s')
           \<and> is_new_login r
           \<and> streak_count r =
               (if last_login_of s u = Some (today - 1) then streak_of s u + 1 else 1)
           \<and> map_option current_streak (profiles s' u)
               = map_option (\<lambda>p. Some (streak_count r)) (profiles s u)
           \<and> map_option last_login_date (profiles s' u)
               = map_option (\<lambda>p. Some today) (profiles s u)"
proof -
  let ?n = "if last_login_of s u = Some (today - 1) then streak_of s u + 1 else 1"
  let ?k = "if ?n = 30 then 50 else 10 :: int"
  let ?s2 = "s\<lparr>daily_logins := daily_logins s @ [(u, today)]\<rparr>"
  have "int4_ok (points_of ?s2 u + ?k)"
    using assms(3,4) by (simp add: points_of_def)
  then obtain s3 where s3: "update_profile_login u ?n today ?k ?s2 = Inr s3"
    using update_profile_login_in_range [of ?s2 u ?k ?n today] by blast
  have r: "handle_daily_login today alone u s =
      (Inr \<lparr>points_earned = ?k, streak_count = ?n, is_new_login = True\<rparr>, s3)"
    using assms(1,2) s3
    by (simp add: handle_daily_login_new new_streak_in_range alone_def)
  from update_profile_login_Inr(3) [OF s3] r show ?thesis
    by (simp split: option.splits)
qed

theorem handle_daily_login_streak_in_range_witness:
  "(''u1'', 20) \<notin> set (daily_logins demo_store)
   \<and> int4_ok (streak_of demo_store ''u1'' + 1)
   \<and> int4_ok (points_of demo_store ''u1'' + 10) \<and> int4_ok (points_of demo_store ''u1'' + 50)
   \<and> (\<exists>r s'. handle_daily_login 20 alone ''u1'' demo_store = (Inr r, s')
         \<and> is_new_login r \<and> streak_count r = 6
         \<and> map_option current_streak (profiles s' ''u1'') = Some (Some 6)
         \<and> map_option last_login_date (profiles s' ''u1'') = Some (Some 20))"
  using handle_daily_login_streak_in_range [of "''u1''" 20 demo_store]
    demo_store_no_login_20
  by (auto simp add: demo_store_fields int4_ok_def)

text \<open>
  The claim as the specification words it fails for a user whose streak is the largest
  \<open>INTEGER\<close>: with the last login the day before and no login row for the day, the
  addition raises, no row is returned and the store, the streak with it, is unchanged.
\<close>

theorem handle_daily_login_streak_counterexample:
  "(''u1'', 20) \<notin> set (daily_logins max_streak_store)
   \<and> last_login_of max_streak_store ''u1'' = Some (20 - 1)
   \<and> handle_daily_login 20 alone ''u1'' max_streak_store
       = (Inl NumericValueOutOfRange, max_streak_store)"
  by (simp add: handle_daily_login_def max_streak_store_def last_login_of_def
      int4_add_def int4_ok_def coalesce_def)


lemma streak29_login:
  "handle_daily_login 20 alone ''u1'' streak29_store =
     (Inr \<lparr>points_earned = 50, streak_count = 30, is_new_login = True\<rparr>,
      \<lparr>profiles = [''u1'' \<mapsto>
         \<lparr>points = Some 340, current_streak = Some 30, last_login_date = Some 20\<rparr>],
       daily_logins = [(''u1'', 19), (''u1'', 20)], achievement_progress = Map.empty\<rparr>)"
  by (simp add: handle_daily_login_def streak29_store_def alone_def insert_daily_login_def
      update_profile_login_def coalesce_def int4_add_def int4_ok_def)


text \<open>
  Claim C4, as the procedure and the hook behave. When the procedure reaches its
  \<open>INSERT\<close> (the streak's addition, if there is one, has stayed in range) and the
  \<open>INSERT\<close> of the login row meets a row for the same user and date that another
  session committed after the procedure's check, the procedure raises the
  unique-violation error and changes nothing: the store is as the other sessions left
  it, no point is credited a second time. The hook catches the error, logs it and
  returns \<open>undefined\<close>; it does not return an already-logged-in row, and leaves the
  streak it displays and the toasts as they were.
\<close>

theorem handle_daily_login_conflict_raises:
  assumes "(u, today) \<notin> set (daily_logins (store w))"
    and "(u, today) \<in> set (daily_logins (concurrent (store w)))"
    and "u \<noteq> []"
    and "last_login_of (store w) u = Some (today - 1) \<longrightarrow> int4_ok (streak_of (store w) u + 1)"
  shows "handle_daily_login today concurrent u (store w) =
           (Inl UniqueViolation, concurrent (store w))
    \<and> handleDailyLogin (Some u) today concurrent w =
        (None, w\<lparr>store := concurrent (store w), console := console w @ [UniqueViolation],
                  calls := calls w @ [Rpc_handle_daily_login]\<rparr>)"
proof -
  have "handle_daily_login today concurrent u (store w) =
           (Inl UniqueViolation, concurrent (store w))"
    using assms(1,2) new_streak_in_range [OF assms(4)]
    by (simp add: handle_daily_login_new)
  with assms(3) show ?thesis
    by (simp add: handleDailyLogin_def js_not_def)
qed

lemma duplicate_call_demo:
  "duplicate_call 20 ''u1'' demo_store =
     \<lparr>profiles = [''u1'' \<mapsto>
        \<lparr>points = Some 110, current_streak = Some 6, last_login_date = Some 20\<rparr>],
      daily_logins = [(''u1'', 19), (''u1'', 20)], achievement_progress = Map.empty\<rparr>"
  by (simp add: duplicate_call_def handle_daily_login_def demo_store_def demo_profile_def
      alone_def insert_daily_login_def update_profile_login_def coalesce_def int4_add_def
      int4_ok_def)

lemma duplicate_call_demo_login:
  "(''u1'', 20) \<in> set (daily_logins (duplicate_call 20 ''u1'' demo_store))"
  by (simp add: duplicate_call_demo)

lemma demo_world_store: "store demo_world = demo_store"
  by (simp add: demo_world_def)

lemma demo_world_no_login_20: "(''u1'', 20) \<notin> set (daily_logins (store demo_world))"
  by (simp add: demo_world_def demo_store_def)

lemma demo_world_duplicate_login:
  "(''u1'', 20) \<in> set (daily_logins (duplicate_call 20 ''u1'' (store demo_world)))"
  by (simp add: demo_world_store duplicate_call_demo)

theorem handle_daily_login_conflict_raises_witness:
  "(''u1'', 20) \<notin> set (daily_logins (store demo_world))
   \<and> (''u1'', 20) \<in> set (daily_logins (duplicate_call 20 ''u1'' (store demo_world)))
   \<and> ''u1'' \<noteq> []
   \<and> last_login_of (store demo_world) ''u1'' = Some (20 - 1)
   \<and> int4_ok (streak_of (store demo_world) ''u1'' + 1)
   \<and> handle_daily_login 20 (duplicate_call 20 ''u1'') ''u1'' (store demo_world) =
       (Inl UniqueViolation, duplicate_call 20 ''u1'' (store demo_world))
   \<and> fst (handleDailyLogin (Some ''u1'') 20 (duplicate_call 20 ''u1'') demo_world) = None"
  using handle_daily_login_conflict_raises
    [of "''u1''" 20 demo_world "duplicate_call 20 ''u1''"]
    demo_world_no_login_20 demo_world_duplicate_login
  by (simp add: demo_world_store demo_store_fields int4_ok_def)

text \<open>
  The claim as the specification words it fails: with the duplicate call of \<open>u1\<close>
  committed in between on day 20, the procedure's result is the error, not the row
  \<open>(0, 6, false)\<close> of a user who has already logged in, and the hook returns
  \<open>undefined\<close>.
\<close>

theorem handle_daily_login_conflict_counterexample:
  "(''u1'', 20) \<notin> set (daily_logins demo_store)
   \<and> (''u1'', 20) \<in> set (daily_logins (duplicate_call 20 ''u1'' demo_store))
   \<and> fst (handle_daily_login 20 (duplicate_call 20 ''u1'') ''u1'' demo_store)
       = Inl UniqueViolation
   \<and> fst (handle_daily_login 20 (duplicate_call 20 ''u1'') ''u1'' demo_store)
       \<noteq> Inr \<lparr>points_earned = 0, streak_count = 6, is_new_login = False\<rparr>
   \<and> fst (handleDailyLogin (Some ''u1'') 20 (duplicate_call 20 ''u1'') demo_world)
       \<noteq> Some \<lparr>points_earned = 0, streak_count = 6, is_new_login = False\<rparr>"
  using demo_store_no_login_20 duplicate_call_demo_login
  by (simp add: handle_daily_login_new handleDailyLogin_def js_not_def demo_world_store
      demo_store_fields int4_add_def int4_ok_def)

text \<open>
  Claim C5, as the procedure behaves. For a user without a profile row and without a
  login row for today, the procedure raises no error: the fields of the missing profile
  read as \<open>NULL\<close>, the login row is inserted, the \<open>UPDATE\<close> finds no row to write, and
  the call returns 10 points earned, a streak of 1 and \<open>is_new_login = true\<close>.
\<close>

theorem handle_daily_login_missing_profile:
  assumes "(u, today) \<notin> set (daily_logins s)" and "profiles s u = None"
  shows "handle_daily_login today alone u s =
    (Inr \<lparr>points_earned = 10, streak_count = 1, is_new_login = True\<rparr>,
     s\<lparr>daily_logins := daily_logins s @ [(u, today)]\<rparr>)"
  using assms
  by (simp add: handle_daily_login_new alone_def update_profile_login_def
      last_login_of_def)

lemma demo_store_no_u2: "(''u2'', 20) \<notin> set (daily_logins demo_store)"
  by (simp add: demo_store_def)

lemma demo_store_no_profile_u2: "profiles demo_store ''u2'' = None"
  by (simp add: demo_store_def)

theorem handle_daily_login_missing_profile_witness:
  "(''u2'', 20) \<notin> set (daily_logins demo_store) \<and> profiles demo_store ''u2'' = None
   \<and> handle_daily_login 20 alone ''u2'' demo_store =
       (Inr \<lparr>points_earned = 10, streak_count = 1, is_new_login = True\<rparr>,
        demo_store\<lparr>daily_logins := [(''u1'', 19), (''u2'', 20)]\<rparr>)"
  using handle_daily_login_missing_profile [OF demo_store_no_u2 demo_store_no_profile_u2]
    demo_store_no_u2 demo_store_no_profile_u2
  by (simp add: demo_store_def)

text \<open>
  The claim as the specification words it fails: \<open>u2\<close> has no profile, and the call
  returns a reward and inserts the login row instead of raising an error.
\<close>

theorem handle_daily_login_missing_profile_counterexample:
  "profiles demo_store ''u2'' = None
   \<and> fst (handle_daily_login 20 alone ''u2'' demo_store) =
       Inr \<lparr>points_earned = 10, streak_count = 1, is_new_login = True\<rparr>
   \<and> (''u2'', 20) \<in> set (daily_logins (snd (handle_daily_login 20 alone ''u2'' demo_store)))"
  by (simp add: handle_daily_login_def demo_store_def alone_def insert_daily_login_def
      update_profile_login_def coalesce_def)

section \<open>Tracking an activity\<close>

lemma js_or0_coalesce: "js_or0 v = coalesce v 0"
  by (simp add: js_or0_def coalesce_def split: option.splits)

text \<open>What each of the three writes leaves in the store, when the store accepts it.\<close>

lemma upsert_progress_Inr:
  assumes "upsert_progress u t n now s = Inr s2"
  shows "int4_ok n" and "profiles s2 = profiles s" and "daily_logins s2 = daily_logins s"
    and "achievement_progress s2 =
           (achievement_progress s)((u, t) \<mapsto>
              (case achievement_progress s (u, t) of
                 None \<Rightarrow> \<lparr>current_count = n, bonus_claimed = False, last_updated = now\<rparr>
               | Some r \<Rightarrow> r\<lparr>current_count := n, last_updated := now\<rparr>))"
  using assms by (auto simp add: upsert_progress_def split: if_splits)

lemma upsert_progress_in_range:
  "int4_ok n \<Longrightarrow> \<exists>s2. upsert_progress u t n now s = Inr s2"
  by (simp add: upsert_progress_def)

lemma upsert_progress_refused:
  "\<not> int4_ok n \<Longrightarrow> upsert_progress u t n now s = Inl NumericValueOutOfRange"
  by (simp add: upsert_progress_def)

lemma update_points_Inr:
  assumes "update_points u v s = Inr s4"
  shows "int4_ok v" and "daily_logins s4 = daily_logins s"
    and "achievement_progress s4 = achievement_progress s"
    and "profiles s4 =
           (case profiles s u of
              None \<Rightarrow> profiles s
            | Some p \<Rightarrow> (profiles s)(u \<mapsto> p\<lparr>points := Some v\<rparr>))"
  using assms by (auto simp add: update_points_def split: if_splits option.splits)

lemma update_points_in_range: "int4_ok v \<Longrightarrow> \<exists>s4. update_points u v s = Inr s4"
  by (simp add: update_points_def)

lemma update_points_refused:
  "\<not> int4_ok v \<Longrightarrow> update_points u v s = Inl NumericValueOutOfRange"
  by (simp add: update_points_def)

lemma update_bonus_claimed_Inr:
  assumes "update_bonus_claimed u t s = Inr s5"
  shows "profiles s5 = profiles s" and "daily_logins s5 = daily_logins s"
    and "achievement_progress s5 =
           (case achievement_progress s (u, t) of
              None \<Rightarrow> achievement_progress s
            | Some r \<Rightarrow> (achievement_progress s)((u, t) \<mapsto> r\<lparr>bonus_claimed := True\<rparr>))"
  using assms by (auto simp add: update_bonus_claimed_def split: option.splits)

lemma update_bonus_claimed_total: "\<exists>s5. update_bonus_claimed u t s = Inr s5"
  by (simp add: update_bonus_claimed_def)

lemma spec_bonus_eligible_in_range: "spec_bonus_eligible a n c \<Longrightarrow> int4_ok n"
  by (auto simp add: spec_bonus_eligible_def int4_ok_def)

text \<open>
  The four ways through \<open>trackActivity\<close>: the upsert refused; no bonus, where the upsert
  is the only write; the bonus with the points refused, where it is the only write too;
  and the bonus paid, where the points and the flag are written after the upsert.
\<close>

lemma trackActivity_upsert_refused:
  assumes "u \<noteq> []" and "\<not> int4_ok (count_of (store w) u a + 1)"
  shows "trackActivity (Some u) a now w =
    w\<lparr>calls := calls w @ [Select_progress, Upsert_progress],
      console := console w @ [NumericValueOutOfRange]\<rparr>"
  using assms
  by (simp add: trackActivity_def js_not_def Let_def select_progress_single_def
      count_of_def js_or0_coalesce upsert_progress_refused)

lemma trackActivity_without_bonus:
  assumes "u \<noteq> []"
    and "\<not> spec_bonus_eligible a (count_of (store w) u a + 1) (claimed_of (store w) u a)"
    and "upsert_progress u (achievement_type a) (count_of (store w) u a + 1) now (store w)
           = Inr s2"
  shows "trackActivity (Some u) a now w =
    w\<lparr>store := s2,
      calls := calls w @ [Select_progress, Upsert_progress, Select_all_progress],
      achievementProgress := (\<lambda>t. achievement_progress s2 (u, t))\<rparr>"
  using assms
  by (cases a) (auto simp add: trackActivity_def js_not_def Let_def select_progress_single_def
      fetchAchievementProgress_def spec_bonus_eligible_def count_of_def claimed_of_def
      js_or0_coalesce)

lemma trackActivity_points_refused:
  assumes "u \<noteq> []"
    and "spec_bonus_eligible a (count_of (store w) u a + 1) (claimed_of (store w) u a)"
    and "upsert_progress u (achievement_type a) (count_of (store w) u a + 1) now (store w)
           = Inr s2"
    and "\<not> int4_ok (points_of s2 u + 50)"
  shows "trackActivity (Some u) a now w =
    w\<lparr>store := s2,
      calls := calls w @ [Select_progress, Upsert_progress, Select_points, Update_points],
      console := console w @ [NumericValueOutOfRange]\<rparr>"
  using assms
  by (cases a) (auto simp add: trackActivity_def js_not_def Let_def select_progress_single_def
      spec_bonus_eligible_def count_of_def claimed_of_def js_or0_coalesce
      select_points_single_def points_of_def update_points_refused)

lemma trackActivity_with_bonus:
  assumes "u \<noteq> []"
    and "spec_bonus_eligible a (count_of (store w) u a + 1) (claimed_of (store w) u a)"
    and "upsert_progress u (achievement_type a) (count_of (store w) u a + 1) now (store w)
           = Inr s2"
    and "update_points u (points_of s2 u + 50) s2 = Inr s4"
    and "update_bonus_claimed u (achievement_type a) s4 = Inr s5"
  shows "trackActivity (Some u) a now w =
    w\<lparr>store := s5,
      calls := calls w @ [Select_progress, Upsert_progress, Select_points, Update_points,
        Update_bonus_claimed, Select_all_progress],
      toasts := toasts w @ [AchievementUnlocked a 50],
      achievementProgress := (\<lambda>t. achievement_progress s5 (u, t))\<rparr>"
  using assms
  by (cases a) (auto simp add: trackActivity_def js_not_def Let_def select_progress_single_def
      fetchAchievementProgress_def spec_bonus_eligible_def count_of_def claimed_of_def
      js_or0_coalesce select_points_single_def points_of_def)

lemma trackActivity_js_not: "js_not userId \<Longrightarrow> trackActivity userId a now w = w"
  by (cases userId) (simp_all add: trackActivity_def)

text \<open>
  The store a call leaves: one of four, by the three tests the call makes.
\<close>

lemma trackActivity_store:
  assumes "u \<noteq> []"
  obtains (refused) "\<not> int4_ok (count_of (store w) u a + 1)"
      "store (trackActivity (Some u) a now w) = store w"
  | (plain) s2 where "int4_ok (count_of (store w) u a + 1)"
      "\<not> spec_bonus_eligible a (count_of (store w) u a + 1) (claimed_of (store w) u a)"
      "upsert_progress u (achievement_type a) (count_of (store w) u a + 1) now (store w)
         = Inr s2"
      "store (trackActivity (Some u) a now w) = s2"
  | (unpaid) s2 where
      "spec_bonus_eligible a (count_of (store w) u a + 1) (claimed_of (store w) u a)"
      "\<not> int4_ok (points_of (store w) u + 50)"
      "upsert_progress u (achievement_type a) (count_of (store w) u a + 1) now (store w)
         = Inr s2"
      "store (trackActivity (Some u) a now w) = s2"
  | (paid) s2 s4 s5 where
      "spec_bonus_eligible a (count_of (store w) u a + 1) (claimed_of (store w) u a)"
      "int4_ok (points_of (store w) u + 50)"
      "upsert_progress u (achievement_type a) (count_of (store w) u a + 1) now (store w)
         = Inr s2"
      "update_points u (points_of (store w) u + 50) s2 = Inr s4"
      "update_bonus_claimed u (achievement_type a) s4 = Inr s5"
      "store (trackActivity (Some u) a now w) = s5"
proof (cases "int4_ok (count_of (store w) u a + 1)")
  case False
  with trackActivity_upsert_refused [OF assms False, of now] refused show ?thesis
    by simp
next
  case True
  then obtain s2 where s2:
    "upsert_progress u (achievement_type a) (count_of (store w) u a + 1) now (store w) = Inr s2"
    using upsert_progress_in_range by blast
  have p: "points_of s2 u = points_of (store w) u"
    using upsert_progress_Inr(2) [OF s2] by (simp add: points_of_def)
  show ?thesis
  proof (cases "spec_bonus_eligible a (count_of (store w) u a + 1) (claimed_of (store w) u a)")
    case False
    with trackActivity_without_bonus [OF assms False s2] True s2 plain show ?thesis
      by simp
  next
    case el: True
    show ?thesis
    proof (cases "int4_ok (points_of (store w) u + 50)")
      case False
      with trackActivity_points_refused [OF assms el s2] p el s2 unpaid show ?thesis
        by simp
    next
      case ok: True
      then obtain s4 where s4: "update_points u (points_of (store w) u + 50) s2 = Inr s4"
        using update_points_in_range by blast
      obtain s5 where s5: "update_bonus_claimed u (achievement_type a) s4 = Inr s5"
        using update_bonus_claimed_total by blast
      from trackActivity_with_bonus [OF assms el s2 _ s5] s4 p
      have "store (trackActivity (Some u) a now w) = s5" by simp
      with el ok s2 s4 s5 paid show ?thesis by blast
    qed
  qed
qed

text \<open>What a call leaves in each of the three tables.\<close>

lemma trackActivity_profiles:
  assumes "u \<noteq> []"
  shows "profiles (store (trackActivity (Some u) a now w)) =
    (if spec_bonus_eligible a (count_of (store w) u a + 1) (claimed_of (store w) u a)
        \<and> int4_ok (points_of (store w) u + 50)
     then (case profiles (store w) u of
             None \<Rightarrow> profiles (store w)
           | Some p \<Rightarrow>
               (profiles (store w))(u \<mapsto> p\<lparr>points := Some (points_of (store w) u + 50)\<rparr>))
     else profiles (store w))"
  using assms
proof (cases rule: trackActivity_store [where u = u and w = w and a = a and now = now])
  case refused
  then show ?thesis by (auto dest: spec_bonus_eligible_in_range)
next
  case (plain s2)
  with upsert_progress_Inr(2) [OF plain(3)] show ?thesis by simp
next
  case (unpaid s2)
  with upsert_progress_Inr(2) [OF unpaid(3)] show ?thesis by simp
next
  case (paid s2 s4 s5)
  with upsert_progress_Inr(2) [OF paid(3)] update_points_Inr(4) [OF paid(4)]
    update_bonus_claimed_Inr(1) [OF paid(5)]
  show ?thesis by (simp split: option.splits)
qed

lemma trackActivity_daily_logins:
  "daily_logins (store (trackActivity userId a now w)) = daily_logins (store w)"
proof (cases "js_not userId")
  case True
  then show ?thesis by (simp add: trackActivity_js_not)
next
  case False
  then obtain u where u: "userId = Some u" "u \<noteq> []"
    by (auto simp add: js_not_def split: option.splits)
  from u(2) have "daily_logins (store (trackActivity (Some u) a now w)) = daily_logins (store w)"
  proof (cases rule: trackActivity_store [where u = u and w = w and a = a and now = now])
    case refused
    then show ?thesis by simp
  next
    case (plain s2)
    with upsert_progress_Inr(3) [OF plain(3)] show ?thesis by simp
  next
    case (unpaid s2)
    with upsert_progress_Inr(3) [OF unpaid(3)] show ?thesis by simp
  next
    case (paid s2 s4 s5)
    with upsert_progress_Inr(3) [OF paid(3)] update_points_Inr(2) [OF paid(4)]
      update_bonus_claimed_Inr(2) [OF paid(5)]
    show ?thesis by simp
  qed
  with u(1) show ?thesis by simp
qed

lemma trackActivity_progress:
  assumes "u \<noteq> []"
  shows "achievement_progress (store (trackActivity (Some u) a now w)) =
    (if int4_ok (count_of (store w) u a + 1)
     then (achievement_progress (store w))((u, achievement_type a) \<mapsto>
       (case achievement_progress (store w) (u, achievement_type a) of
          None \<Rightarrow> \<lparr>current_count = 1, bonus_claimed = False, last_updated = now\<rparr>
        | Some r \<Rightarrow>
            r\<lparr>current_count := current_count r + 1, last_updated := now,
              bonus_claimed := bonus_claimed r \<or>
                spec_bonus_eligible a (current_count r + 1) (bonus_claimed r)
                  \<and> int4_ok (points_of (store w) u + 50)\<rparr>))
     else achievement_progress (store w))"
  using assms
proof (cases rule: trackActivity_store [where u = u and w = w and a = a and now = now])
  case refused
  then show ?thesis by simp
next
  case (plain s2)
  with upsert_progress_Inr(4) [OF plain(3)] show ?thesis
    by (auto simp add: count_of_def claimed_of_def coalesce_def split: option.splits)
next
  case (unpaid s2)
  with upsert_progress_Inr(4) [OF unpaid(3)] spec_bonus_eligible_in_range [OF unpaid(1)]
  show ?thesis
    by (auto simp add: count_of_def claimed_of_def coalesce_def split: option.splits)
next
  case (paid s2 s4 s5)
  with upsert_progress_Inr(4) [OF paid(3)] update_points_Inr(3) [OF paid(4)]
    update_bonus_claimed_Inr(3) [OF paid(5)] spec_bonus_eligible_in_range [OF paid(1)]
  show ?thesis
    by (auto simp add: count_of_def claimed_of_def coalesce_def spec_bonus_eligible_def
        split: option.splits)
qed

lemma trackActivity_row_count:
  assumes "u \<noteq> []" and "int4_ok (count_of (store w) u a + 1)"
  shows "map_option current_count
           (achievement_progress (store (trackActivity (Some u) a now w))
              (u, achievement_type a))
         = Some (count_of (store w) u a + 1)"
  using assms(2)
  by (simp add: trackActivity_progress [OF assms(1)] count_of_def coalesce_def
      split: option.splits)

lemma trackActivity_count_of:
  assumes "u \<noteq> []" and "int4_ok (count_of (store w) u a + 1)"
  shows "count_of (store (trackActivity (Some u) a now w)) u a = count_of (store w) u a + 1"
  using trackActivity_row_count [OF assms, of now]
  by (auto simp add: count_of_def [of "store (trackActivity (Some u) a now w)"] coalesce_def)

lemma run_track_count_of:
  assumes "u \<noteq> []"
  shows "int4_ok (count_of (store w) u a)
    \<Longrightarrow> count_of (store w) u a + int (length ts) \<le> 2147483647
    \<Longrightarrow> count_of (store (run (map (TrackActivity (Some u) a) ts) w)) u a
         = count_of (store w) u a + int (length ts)"
proof (induction ts arbitrary: w)
  case Nil
  show ?case by simp
next
  case (Cons t ts)
  have ok: "int4_ok (count_of (store w) u a + 1)"
    using Cons.prems by (simp add: int4_ok_def)
  have c: "count_of (store (trackActivity (Some u) a t w)) u a = count_of (store w) u a + 1"
    using assms ok by (rule trackActivity_count_of)
  have "count_of (store (run (map (TrackActivity (Some u) a) ts) (trackActivity (Some u) a t w)))
          u a
        = count_of (store (trackActivity (Some u) a t w)) u a + int (length ts)"
    using Cons.prems ok by (intro Cons.IH) (simp_all add: c)
  with c show ?case by simp
qed




lemma quiz_world_fields:
  "points_of (store (quiz_world n c)) ''u1'' = 100"
  "count_of (store (quiz_world n c)) ''u1'' Quiz = n"
  "claimed_of (store (quiz_world n c)) ''u1'' Quiz = c"
  "profiles (store (quiz_world n c)) ''u1'' = Some demo_profile"
  by (simp_all add: quiz_world_def demo_world_def demo_store_def demo_profile_def
      points_of_def count_of_def claimed_of_def coalesce_def)







text \<open>
  A count that is already at the threshold with the bonus unclaimed moves past it
  without a bonus: the rule looks at the new count only.
\<close>

lemma track_activity_no_bonus_past_threshold:
  "points_of (store (trackActivity (Some ''u1'') Quiz ''t1'' (quiz_world 30 False))) ''u1''
     = 100"
  by (simp add: points_of_def [of "store (trackActivity _ _ _ _)"] trackActivity_profiles
      quiz_world_fields spec_bonus_eligible_def)
    (simp add: demo_profile_def coalesce_def)

section \<open>Invariants over sequences of operations\<close>

lemma handleDailyLogin_js_not:
  "js_not userId \<Longrightarrow> handleDailyLogin userId today concurrent w = (None, w)"
  by (cases userId) (simp_all add: handleDailyLogin_def)

lemma handleDailyLogin_store:
  assumes "u \<noteq> []"
  shows "store (snd (handleDailyLogin (Some u) today concurrent w))
         = snd (handle_daily_login today concurrent u (store w))"
  using assms
  by (simp add: handleDailyLogin_def js_not_def split: prod.splits sum.splits)

text \<open>
  The store a call of the procedure leaves when it runs alone: the store it found, or
  the store with the login row and the profile written.
\<close>

lemma handle_daily_login_alone_store:
  obtains (same) "snd (handle_daily_login today alone u s) = s"
  | (written) n s3 where "(u, today) \<notin> set (daily_logins s)"
      "update_profile_login u n today (if n = 30 then 50 else 10)
         (s\<lparr>daily_logins := daily_logins s @ [(u, today)]\<rparr>) = Inr s3"
      "snd (handle_daily_login today alone u s) = s3"
proof (cases "(u, today) \<in> set (daily_logins s)")
  case True
  then have "snd (handle_daily_login today alone u s) = s"
    by (simp add: handle_daily_login_old)
  then show ?thesis by (rule same)
next
  case False
  show ?thesis
  proof (cases "snd (handle_daily_login today alone u s) = s")
    case True
    then show ?thesis by (rule same)
  next
    case ns: False
    with False obtain n s3 where
      "update_profile_login u n today (if n = 30 then 50 else 10)
         (s\<lparr>daily_logins := daily_logins s @ [(u, today)]\<rparr>) = Inr s3"
      "snd (handle_daily_login today alone u s) = s3"
      by (auto simp add: handle_daily_login_new alone_def split: sum.splits if_splits)
    with False show ?thesis by (rule written)
  qed
qed

lemma handle_daily_login_alone_progress:
  "achievement_progress (snd (handle_daily_login today alone u s)) = achievement_progress s"
proof (cases rule: handle_daily_login_alone_store [of today u s])
  case same
  then show ?thesis by simp
next
  case (written n s3)
  with update_profile_login_Inr(2) [OF written(2)] show ?thesis by simp
qed


lemma claimed_of_trackActivity:
  assumes "claimed_of (store w) u a"
  shows "claimed_of (store (trackActivity userId b now w)) u a"
proof (cases "js_not userId")
  case True
  with assms show ?thesis by (simp add: trackActivity_js_not)
next
  case False
  then obtain v where v: "userId = Some v" "v \<noteq> []"
    by (auto simp add: js_not_def split: option.splits)
  from assms show ?thesis
    by (auto simp add: v(1) trackActivity_progress [OF v(2)] claimed_of_def coalesce_def
        split: option.splits)
qed

lemma step_claimed_of:
  assumes "claimed_of (store w) u a"
  shows "claimed_of (store (step x w)) u a"
proof (cases x)
  case (DailyLogin userId today)
  show ?thesis
  proof (cases "js_not userId")
    case True
    with assms DailyLogin show ?thesis by (simp add: handleDailyLogin_js_not)
  next
    case False
    then obtain v where v: "userId = Some v" "v \<noteq> []"
      by (auto simp add: js_not_def split: option.splits)
    from assms show ?thesis
      by (simp add: DailyLogin v(1) handleDailyLogin_store [OF v(2)] claimed_of_def
          handle_daily_login_alone_progress)
  qed
next
  case (TrackActivity userId b now)
  with assms show ?thesis by (simp add: claimed_of_trackActivity)
qed

lemma run_claimed_of:
  assumes "claimed_of (store w) u a"
  shows "claimed_of (store (run xs w)) u a"
  using assms by (induction xs arbitrary: w) (simp_all add: step_claimed_of)

text \<open>
  Claim C8. Once the bonus of a user and an activity is claimed, it is still claimed
  after any sequence of operations of any users: the flag goes from false to true and
  never back, so it makes that step at most once. And a further \<open>trackActivity\<close> for
  the pair writes no points, whatever the count is.
\<close>

theorem bonus_claimed_stays_claimed:
  assumes "claimed_of (store w) u a"
  shows "claimed_of (store (run xs w)) u a
    \<and> profiles (store (trackActivity (Some u) a now (run xs w))) = profiles (store (run xs w))"
proof -
  have c: "claimed_of (store (run xs w)) u a"
    using assms by (rule run_claimed_of)
  have "profiles (store (trackActivity (Some u) a now (run xs w))) = profiles (store (run xs w))"
  proof (cases "u = []")
    case True
    then show ?thesis by (simp add: trackActivity_js_not js_not_def)
  next
    case False
    with c show ?thesis by (simp add: trackActivity_profiles spec_bonus_eligible_def)
  qed
  with c show ?thesis by simp
qed

theorem bonus_claimed_stays_claimed_witness:
  "claimed_of (store (quiz_world 28 True)) ''u1'' Quiz
   \<and> claimed_of
       (store (run [TrackActivity (Some ''u1'') Quiz ''t1'', DailyLogin (Some ''u1'') 20]
                 (quiz_world 28 True))) ''u1'' Quiz
   \<and> profiles
       (store (trackActivity (Some ''u1'') Quiz ''t2''
                 (run [TrackActivity (Some ''u1'') Quiz ''t1'', DailyLogin (Some ''u1'') 20]
                    (quiz_world 28 True))))
     = profiles
         (store (run [TrackActivity (Some ''u1'') Quiz ''t1'', DailyLogin (Some ''u1'') 20]
                   (quiz_world 28 True)))"
  using bonus_claimed_stays_claimed
    [of "quiz_world 28 True" "''u1''" Quiz
      "[TrackActivity (Some ''u1'') Quiz ''t1'', DailyLogin (Some ''u1'') 20]" "''t2''"]
  by (simp add: quiz_world_fields)




text \<open>
  Claim C10. With an undefined user identifier both operations return at once: the
  login returns \<open>undefined\<close>, and the store, the hook's state and the log of calls to
  the store are what they were, so that no table was read or written.
\<close>

theorem undefined_user_is_noop:
  "handleDailyLogin None today concurrent w = (None, w) \<and> trackActivity None a now w = w"
  by (simp add: handleDailyLogin_def trackActivity_def)

section \<open>The examples of the specification\<close>

text \<open>
  After a call that returned a row, a second call on the same day is a login that is
  not new, earns nothing and leaves the store as the first call left it.
\<close>

lemma handle_daily_login_twice:
  assumes "handle_daily_login today alone u s = (Inr r, s1)"
  shows "\<exists>n. handle_daily_login today concurrent u s1 =
     (Inr \<lparr>points_earned = 0, streak_count = n, is_new_login = False\<rparr>, s1)"
proof -
  have "(u, today) \<in> set (daily_logins s1)"
  proof (cases "(u, today) \<in> set (daily_logins s)")
    case True
    with assms show ?thesis by (simp add: handle_daily_login_old)
  next
    case False
    from handle_daily_login_new [OF False, where concurrent = alone] assms
    have "\<exists>n k. update_profile_login u n today k
         (s\<lparr>daily_logins := daily_logins s @ [(u, today)]\<rparr>) = Inr s1"
      by (auto simp add: alone_def split: sum.splits if_splits)
    then obtain n k where "update_profile_login u n today k
         (s\<lparr>daily_logins := daily_logins s @ [(u, today)]\<rparr>) = Inr s1"
      by blast
    from update_profile_login_Inr(1) [OF this] show ?thesis by simp
  qed
  then show ?thesis by (simp add: handle_daily_login_old)
qed

text \<open>No call adds a second login row for a user and a date.\<close>

lemma handle_daily_login_distinct:
  assumes "distinct (daily_logins s)"
  shows "distinct (daily_logins (snd (handle_daily_login today alone u s)))"
proof (cases rule: handle_daily_login_alone_store [of today u s])
  case same
  with assms show ?thesis by simp
next
  case (written n s3)
  with update_profile_login_Inr(1) [OF written(2)] assms show ?thesis by simp
qed

text \<open>The day after the 30th day of the streak: 31 days, and 10 points again.\<close>

lemma streak30_next_day:
  "fst (handle_daily_login 21 alone ''u1'' (snd (handle_daily_login 20 alone ''u1'' streak29_store)))
   = Inr \<lparr>points_earned = 10, streak_count = 31, is_new_login = True\<rparr>"
  by (simp add: streak29_login)
    (simp add: handle_daily_login_def alone_def insert_daily_login_def
      update_profile_login_def coalesce_def int4_add_def int4_ok_def)

lemma run_append: "run (xs @ ys) w = run ys (run xs w)"
  by (induction xs arbitrary: w) simp_all

lemma run_quiz_below_30:
  assumes "u \<noteq> []"
  shows "\<not> claimed_of (store w) u Quiz \<Longrightarrow> 0 \<le> count_of (store w) u Quiz
    \<Longrightarrow> count_of (store w) u Quiz + int (length ts) < 30
    \<Longrightarrow> \<not> claimed_of (store (run (map (TrackActivity (Some u) Quiz) ts) w)) u Quiz
        \<and> profiles (store (run (map (TrackActivity (Some u) Quiz) ts) w)) = profiles (store w)"
proof (induction ts arbitrary: w)
  case Nil
  then show ?case by simp
next
  case (Cons t ts)
  have ne: "\<not> spec_bonus_eligible Quiz (count_of (store w) u Quiz + 1)
      (claimed_of (store w) u Quiz)"
    using Cons.prems(3) by (simp add: spec_bonus_eligible_def)
  have ok: "int4_ok (count_of (store w) u Quiz + 1)"
    using Cons.prems(2,3) by (simp add: int4_ok_def)
  have a: "\<not> claimed_of (store (trackActivity (Some u) Quiz t w)) u Quiz"
    using Cons.prems(1) ne
    by (auto simp add: trackActivity_progress [OF assms] claimed_of_def count_of_def
        coalesce_def split: option.splits)
  have c: "count_of (store (trackActivity (Some u) Quiz t w)) u Quiz
      = count_of (store w) u Quiz + 1"
    using assms ok by (rule trackActivity_count_of)
  have p: "profiles (store (trackActivity (Some u) Quiz t w)) = profiles (store w)"
    using ne by (simp add: trackActivity_profiles [OF assms])
  have "\<not> claimed_of
          (store (run (map (TrackActivity (Some u) Quiz) ts) (trackActivity (Some u) Quiz t w)))
          u Quiz
      \<and> profiles
          (store (run (map (TrackActivity (Some u) Quiz) ts) (trackActivity (Some u) Quiz t w)))
        = profiles (store (trackActivity (Some u) Quiz t w))"
    using a Cons.prems(2,3) by (intro Cons.IH) (simp_all add: c)
  with p show ?case by simp
qed

text \<open>
  Thirty quizzes of a user with a profile, room for 50 points and no progress row: a
  count of 30, the bonus claimed, and 50 points credited, once.
\<close>

lemma thirty_quizzes:
  assumes "u \<noteq> []" and "achievement_progress (store w) (u, ''quiz'') = None"
    and "profiles (store w) u = Some p" and "int4_ok (points_of (store w) u + 50)"
    and "length ts = 29"
  shows "count_of (store (run (map (TrackActivity (Some u) Quiz) (ts @ [t])) w)) u Quiz = 30
    \<and> claimed_of (store (run (map (TrackActivity (Some u) Quiz) (ts @ [t])) w)) u Quiz
    \<and> points_of (store (run (map (TrackActivity (Some u) Quiz) (ts @ [t])) w)) u
        = points_of (store w) u + 50"
proof -
  let ?w = "run (map (TrackActivity (Some u) Quiz) ts) w"
  have c0: "count_of (store w) u Quiz = 0" and f0: "\<not> claimed_of (store w) u Quiz"
    using assms(2) by (simp_all add: count_of_def claimed_of_def coalesce_def)
  have cnt: "count_of (store ?w) u Quiz = 29"
    using run_track_count_of [OF assms(1), of w Quiz ts] c0 assms(5)
    by (simp add: int4_ok_def)
  have below: "\<not> claimed_of (store ?w) u Quiz \<and> profiles (store ?w) = profiles (store w)"
    using run_quiz_below_30 [OF assms(1) f0, of ts] c0 assms(5) by simp
  have el: "spec_bonus_eligible Quiz (count_of (store ?w) u Quiz + 1)
      (claimed_of (store ?w) u Quiz)"
    using cnt below by (simp add: spec_bonus_eligible_def)
  have r: "run (map (TrackActivity (Some u) Quiz) (ts @ [t])) w
      = trackActivity (Some u) Quiz t ?w"
    by (simp add: run_append)
  have p: "points_of (store ?w) u = points_of (store w) u"
    using below by (simp add: points_of_def)
  have 1: "count_of (store (trackActivity (Some u) Quiz t ?w)) u Quiz = 30"
    using cnt by (simp add: trackActivity_count_of [OF assms(1)] int4_ok_def)
  have 2: "claimed_of (store (trackActivity (Some u) Quiz t ?w)) u Quiz"
    using el cnt assms(4) p
    by (auto simp add: trackActivity_progress [OF assms(1)] claimed_of_def count_of_def
        coalesce_def spec_bonus_eligible_def int4_ok_def split: option.splits)
  have 3: "points_of (store (trackActivity (Some u) Quiz t ?w)) u = points_of (store w) u + 50"
    using el below assms(3,4) p
    by (simp add: points_of_def [of "store (trackActivity (Some u) Quiz t ?w)"]
        trackActivity_profiles [OF assms(1)] coalesce_def)
  from 1 2 3 r show ?thesis by simp
qed

text \<open>
  Beyond the range of an \<open>INTEGER\<close> the procedure raises and changes nothing: when the
  streak after a login the day before has no room for 1 more, and when the points of
  the profile have no room for the reward.
\<close>

lemma handle_daily_login_streak_out_of_range:
  assumes "(u, today) \<notin> set (daily_logins s)"
    and "last_login_of s u = Some (today - 1)" and "\<not> int4_ok (streak_of s u + 1)"
  shows "handle_daily_login today concurrent u s = (Inl NumericValueOutOfRange, s)"
  using assms by (simp add: handle_daily_login_new int4_add_def)

lemma handle_daily_login_points_out_of_range:
  assumes "(u, today) \<notin> set (daily_logins s)" and "profiles s u = Some p"
    and "int4_ok (streak_of s u + 1)"
    and "\<not> int4_ok (points_of s u + 10)" and "\<not> int4_ok (points_of s u + 50)"
  shows "handle_daily_login today alone u s = (Inl NumericValueOutOfRange, s)"
  using assms
  by (simp add: handle_daily_login_new new_streak_in_range alone_def
      update_profile_login_def int4_add_def points_of_def)

end
